theory Spec2Isabelle
  imports Complex_Main
begin

section \<open>Python floats\<close>

text \<open>
  The development follows \<^verbatim>\<open>src/fix_edgar_revenue.py\<close>. The function of interest is
  \<^verbatim>\<open>fixed_to_financials_dict(self, cik, year)\<close>, which replaces the loader's method
  \<^verbatim>\<open>to_financials_dict\<close>, and the loop that registers \<^verbatim>\<open>ADDITIONAL_REVENUE_TAGS\<close> in
  the global \<^verbatim>\<open>EDGAR_TAG_MAPPING\<close>.

  The method adds, subtracts and compares Python floats, which are IEEE 754 binary64
  numbers. A float is a finite value, an infinity or NaN. A finite float is given by
  the real number it stands for; the two zeros are one value (they are equal under
  \<^verbatim>\<open>==\<close> and under every operation the method uses).
\<close>

datatype double = Finite real | PInf | NInf | NaN

text \<open>The number of binary digits of a positive integer.\<close>

function bit_length :: "int \<Rightarrow> int" where
  "bit_length n = (if n \<le> 0 then 0 else bit_length (n div 2) + 1)"
  by pat_completeness auto
termination
  by (relation "measure nat") auto

declare bit_length.simps [simp del]

definition pow2 :: "int \<Rightarrow> real" where
  "pow2 q = (if 0 \<le> q then 2 ^ nat q else 1 / 2 ^ nat (- q))"

text \<open>
  The binary exponent of a positive real: the \<open>e\<close> with \<open>2\<^sup>e \<le> x < 2\<^sup>e\<^sup>+\<^sup>1\<close>.
\<close>

definition ilog2 :: "real \<Rightarrow> int" where
  "ilog2 x = (if 1 \<le> x then bit_length \<lfloor>x\<rfloor> - 1 else - bit_length (\<lceil>1 / x\<rceil> - 1))"

text \<open>Rounding to the nearest integer, a tie going to the even one.\<close>

definition round_half_even :: "real \<Rightarrow> int" where
  "round_half_even y =
     (let f = \<lfloor>y\<rfloor>; d = y - of_int f
      in if d < 1 / 2 then f else if 1 / 2 < d then f + 1 else if even f then f else f + 1)"

text \<open>
  Rounding a real to binary64, to nearest with ties to even: 53 significant bits, the
  smallest step \<open>2\<^sup>-\<^sup>1\<^sup>0\<^sup>7\<^sup>4\<close>, and an infinity when the rounded value reaches
  \<open>2\<^sup>1\<^sup>0\<^sup>2\<^sup>4\<close>.
\<close>

definition round_double :: "real \<Rightarrow> double" where
  "round_double x =
     (if x = 0 then Finite 0
      else let q = max (ilog2 \<bar>x\<bar> - 52) (- 1074);
               y = of_int (round_half_even (x / pow2 q)) * pow2 q
           in if 2 ^ 1024 \<le> y then PInf else if y \<le> - (2 ^ 1024) then NInf else Finite y)"

text \<open>\<^verbatim>\<open>x + y\<close> on floats.\<close>

fun dadd :: "double \<Rightarrow> double \<Rightarrow> double" where
  "dadd NaN y = NaN"
| "dadd x NaN = NaN"
| "dadd PInf NInf = NaN"
| "dadd NInf PInf = NaN"
| "dadd PInf y = PInf"
| "dadd NInf y = NInf"
| "dadd x PInf = PInf"
| "dadd x NInf = NInf"
| "dadd (Finite x) (Finite y) = round_double (x + y)"

text \<open>\<^verbatim>\<open>x - y\<close> on floats.\<close>

fun dsub :: "double \<Rightarrow> double \<Rightarrow> double" where
  "dsub NaN y = NaN"
| "dsub x NaN = NaN"
| "dsub PInf PInf = NaN"
| "dsub NInf NInf = NaN"
| "dsub PInf y = PInf"
| "dsub NInf y = NInf"
| "dsub x PInf = NInf"
| "dsub x NInf = PInf"
| "dsub (Finite x) (Finite y) = round_double (x - y)"

text \<open>\<^verbatim>\<open>x > y\<close> on floats; a comparison with NaN is false.\<close>

fun dgt :: "double \<Rightarrow> double \<Rightarrow> bool" where
  "dgt NaN y = False"
| "dgt x NaN = False"
| "dgt PInf PInf = False"
| "dgt PInf y = True"
| "dgt x PInf = False"
| "dgt NInf y = False"
| "dgt x NInf = True"
| "dgt (Finite x) (Finite y) = (y < x)"

text \<open>\<^verbatim>\<open>x >= y\<close> on floats.\<close>

fun dge :: "double \<Rightarrow> double \<Rightarrow> bool" where
  "dge NaN y = False"
| "dge x NaN = False"
| "dge PInf y = True"
| "dge x PInf = False"
| "dge x NInf = True"
| "dge NInf y = False"
| "dge (Finite x) (Finite y) = (y \<le> x)"

text \<open>\<^verbatim>\<open>max(x, y)\<close>, which returns \<open>y\<close> when \<open>y > x\<close> and \<open>x\<close> otherwise.\<close>

definition dmax :: "double \<Rightarrow> double \<Rightarrow> double" where
  "dmax x y = (if dgt y x then y else x)"

section \<open>The data of the loader\<close>

text \<open>
  A cell of a loader row holds None, a float (NaN among them), an integer, a string,
  a boolean, or an object that has no conversion to a float (a complex number, a
  timestamp).
\<close>

datatype cell =
  NoneVal | FloatVal double | IntVal int | StrVal string | BoolVal bool | OtherVal

text \<open>
  A row (\<^verbatim>\<open>company_data.iloc[0]\<close>) is a pandas Series: its index, in order, with the
  value of every label. \<^verbatim>\<open>row.index\<close> is \<open>map fst row\<close> and \<^verbatim>\<open>row[col]\<close> is
  \<open>map_of row col\<close>. The answer of \<^verbatim>\<open>get_company_financials\<close> is None or a data frame,
  the list of its rows.
\<close>

type_synonym series = "(string \<times> cell) list"

type_synonym dataframe = "series list"

type_synonym loader = "int \<Rightarrow> int list \<Rightarrow> dataframe option"

type_synonym financials = "string \<Rightarrow> double option"

datatype error = ValueError | TypeError | OverflowError | KeyError | AttributeError

subsection \<open>Library functions the code calls\<close>

text \<open>\<^verbatim>\<open>pd.notna(value)\<close>: false for None and for NaN, true for everything else.\<close>

fun notna :: "cell \<Rightarrow> bool" where
  "notna NoneVal = False"
| "notna (FloatVal NaN) = False"
| "notna v = True"

text \<open>
  \<^verbatim>\<open>float(value)\<close>. A float converts to itself and a boolean to 1.0 or 0.0. An integer
  is rounded to the nearest float, and OverflowError is raised when it is too large
  for one. None and an object without a conversion raise TypeError. On a string the
  builtin parses a numeral and raises ValueError when the text is not one; the parser
  belongs to the Python runtime and is taken as the parameter \<open>str2float\<close> (\<open>None\<close>
  where the builtin raises).
\<close>

fun py_float :: "(string \<Rightarrow> double option) \<Rightarrow> cell \<Rightarrow> error + double" where
  "py_float str2float (FloatVal d) = Inr d"
| "py_float str2float (IntVal i) =
     (case round_double (of_int i) of Finite x \<Rightarrow> Inr (Finite x) | _ \<Rightarrow> Inl OverflowError)"
| "py_float str2float (StrVal s) =
     (case str2float s of None \<Rightarrow> Inl ValueError | Some d \<Rightarrow> Inr d)"
| "py_float str2float (BoolVal b) = Inr (Finite (if b then 1 else 0))"
| "py_float str2float NoneVal = Inl TypeError"
| "py_float str2float OtherVal = Inl TypeError"

text \<open>
  \<^verbatim>\<open>d.get(key, default)\<close> on a dict. The code's default is the integer 0, which
  adds and compares as the float 0.0 does.
\<close>

definition dict_get :: "financials \<Rightarrow> string \<Rightarrow> double \<Rightarrow> double" where
  "dict_get d key dflt = (case d key of None \<Rightarrow> dflt | Some v \<Rightarrow> v)"

section \<open>The patched method\<close>

text \<open>
  Lines 65 to 70: the loop over \<^verbatim>\<open>row.index\<close>. The columns \<^verbatim>\<open>cik\<close> and \<^verbatim>\<open>year\<close> are
  skipped; a value for which \<^verbatim>\<open>pd.notna\<close> holds is converted with \<^verbatim>\<open>float\<close> and
  stored; a missing value is passed over. An exception of \<^verbatim>\<open>row[col]\<close> or \<^verbatim>\<open>float\<close>
  ends the call.
\<close>

fun copy_fields ::
  "(string \<Rightarrow> double option) \<Rightarrow> series \<Rightarrow> string list \<Rightarrow> financials \<Rightarrow> error + financials" where
  "copy_fields str2float row [] financials = Inr financials"
| "copy_fields str2float row (col # cols) financials =
     (if col \<in> set [''cik'', ''year''] then copy_fields str2float row cols financials
      else case map_of row col of
             None \<Rightarrow> Inl KeyError
           | Some v \<Rightarrow>
               if notna v then
                 (case py_float str2float v of
                    Inl e \<Rightarrow> Inl e
                  | Inr x \<Rightarrow> copy_fields str2float row cols (financials(col \<mapsto> x)))
               else copy_fields str2float row cols financials)"

text \<open>
  Lines 73 to 77: when both revenue components are in the dict, their sum replaces
  \<^verbatim>\<open>revenue\<close> if it is greater than \<^verbatim>\<open>financials.get('revenue', 0)\<close>. The message
  printed at line 77 is not part of the model.
\<close>

definition sum_components :: "financials \<Rightarrow> financials" where
  "sum_components financials =
     (if financials ''revenue_products'' \<noteq> None \<and> financials ''revenue_services'' \<noteq> None then
        (let total_rev = dadd (dict_get financials ''revenue_products'' (Finite 0))
                              (dict_get financials ''revenue_services'' (Finite 0))
         in if dgt total_rev (dict_get financials ''revenue'' (Finite 0))
            then financials(''revenue'' \<mapsto> total_rev)
            else financials)
      else financials)"

text \<open>
  Lines 80 and 81: with \<^verbatim>\<open>revenue\<close> and \<^verbatim>\<open>cogs\<close> both in the dict,
  \<^verbatim>\<open>gross_profit\<close> is set to their difference.
\<close>

definition recalc_gross_profit :: "financials \<Rightarrow> financials" where
  "recalc_gross_profit financials =
     (case (financials ''revenue'', financials ''cogs'') of
        (Some revenue, Some cogs) \<Rightarrow> financials(''gross_profit'' \<mapsto> dsub revenue cogs)
      | _ \<Rightarrow> financials)"

text \<open>
  Lines 62 to 83, the work on one row, which the specification calls \<^verbatim>\<open>reconcile\<close>.
\<close>

definition row_to_financials :: "(string \<Rightarrow> double option) \<Rightarrow> series \<Rightarrow> error + financials" where
  "row_to_financials str2float row =
     (case copy_fields str2float row (map fst row) Map.empty of
        Inl e \<Rightarrow> Inl e
      | Inr financials \<Rightarrow> Inr (recalc_gross_profit (sum_components financials)))"

text \<open>
  The whole method. \<open>self\<close> is the loader's \<^verbatim>\<open>get_company_financials\<close>; the result is
  \<open>Inr None\<close> for Python's None, \<open>Inr (Some d)\<close> for a dict and \<open>Inl e\<close> for an
  exception.
\<close>

definition fixed_to_financials_dict ::
  "(string \<Rightarrow> double option) \<Rightarrow> loader \<Rightarrow> int \<Rightarrow> int \<Rightarrow> error + financials option" where
  "fixed_to_financials_dict str2float self cik year =
     (case self cik [year] of
        None \<Rightarrow> Inr None
      | Some company_data \<Rightarrow>
          (case company_data of
             [] \<Rightarrow> Inr None
           | row # _ \<Rightarrow>
               (case row_to_financials str2float row of
                  Inl e \<Rightarrow> Inl e
                | Inr financials \<Rightarrow> Inr (Some financials))))"

section \<open>The patched method on a store of objects\<close>

text \<open>
  Python passes the row and the dict by reference. To say which objects a call writes,
  the method is given a second time over a store: a list of objects, an address being
  a position in it. Every statement of lines 62 to 83 is translated as before; a read
  of \<^verbatim>\<open>row\<close> or \<^verbatim>\<open>financials\<close> goes through the address, \<^verbatim>\<open>financials = {}\<close> allocates
  and \<^verbatim>\<open>financials[key] = x\<close> updates the object at the address.
\<close>

datatype obj = SeriesObj series | DictObj financials

type_synonym store = "obj list"

definition series_at :: "store \<Rightarrow> nat \<Rightarrow> series option" where
  "series_at s a =
     (if a < length s then (case s ! a of SeriesObj row \<Rightarrow> Some row | DictObj d \<Rightarrow> None)
      else None)"

definition dict_at :: "store \<Rightarrow> nat \<Rightarrow> financials option" where
  "dict_at s a =
     (if a < length s then (case s ! a of SeriesObj row \<Rightarrow> None | DictObj d \<Rightarrow> Some d)
      else None)"

text \<open>\<^verbatim>\<open>row[col]\<close> through the address of the row.\<close>

definition series_get :: "store \<Rightarrow> nat \<Rightarrow> string \<Rightarrow> cell option" where
  "series_get s a col = (case series_at s a of None \<Rightarrow> None | Some row \<Rightarrow> map_of row col)"

text \<open>\<^verbatim>\<open>{}\<close>: a new empty dict at the next free address.\<close>

definition new_dict :: "store \<Rightarrow> nat \<times> store" where
  "new_dict s = (length s, s @ [DictObj Map.empty])"

text \<open>\<^verbatim>\<open>d[key] = x\<close> through the address of the dict.\<close>

definition dict_set :: "store \<Rightarrow> nat \<Rightarrow> string \<Rightarrow> double \<Rightarrow> store" where
  "dict_set s a key x =
     (case dict_at s a of None \<Rightarrow> s | Some d \<Rightarrow> s[a := DictObj (d(key \<mapsto> x))])"

text \<open>Lines 65 to 70; the result is the exception raised, if any, and the store.\<close>

fun copy_fields_st ::
  "(string \<Rightarrow> double option) \<Rightarrow> nat \<Rightarrow> nat \<Rightarrow> string list \<Rightarrow> store \<Rightarrow> error option \<times> store" where
  "copy_fields_st str2float row financials [] s = (None, s)"
| "copy_fields_st str2float row financials (col # cols) s =
     (if col \<in> set [''cik'', ''year''] then copy_fields_st str2float row financials cols s
      else case series_get s row col of
             None \<Rightarrow> (Some KeyError, s)
           | Some v \<Rightarrow>
               if notna v then
                 (case py_float str2float v of
                    Inl e \<Rightarrow> (Some e, s)
                  | Inr x \<Rightarrow>
                      copy_fields_st str2float row financials cols (dict_set s financials col x))
               else copy_fields_st str2float row financials cols s)"

text \<open>Lines 73 to 77.\<close>

definition sum_components_st :: "nat \<Rightarrow> store \<Rightarrow> store" where
  "sum_components_st financials s =
     (case dict_at s financials of
        None \<Rightarrow> s
      | Some d \<Rightarrow>
          if d ''revenue_products'' \<noteq> None \<and> d ''revenue_services'' \<noteq> None then
            (let total_rev = dadd (dict_get d ''revenue_products'' (Finite 0))
                                  (dict_get d ''revenue_services'' (Finite 0))
             in if dgt total_rev (dict_get d ''revenue'' (Finite 0))
                then dict_set s financials ''revenue'' total_rev
                else s)
          else s)"

text \<open>Lines 80 and 81.\<close>

definition recalc_gross_profit_st :: "nat \<Rightarrow> store \<Rightarrow> store" where
  "recalc_gross_profit_st financials s =
     (case dict_at s financials of
        None \<Rightarrow> s
      | Some d \<Rightarrow>
          (case (d ''revenue'', d ''cogs'') of
             (Some revenue, Some cogs) \<Rightarrow> dict_set s financials ''gross_profit'' (dsub revenue cogs)
           | _ \<Rightarrow> s))"

text \<open>
  Lines 62 to 83 on the store: \<open>row\<close> is the address of the row, the result is the
  address of the dict returned, or the exception, with the store the call leaves.
  Reading \<^verbatim>\<open>row.index\<close> at an address that holds no Series raises AttributeError.
\<close>

definition row_to_financials_st ::
  "(string \<Rightarrow> double option) \<Rightarrow> nat \<Rightarrow> store \<Rightarrow> (error + nat) \<times> store" where
  "row_to_financials_st str2float row s =
     (case series_at s row of
        None \<Rightarrow> (Inl AttributeError, s)
      | Some r \<Rightarrow>
          (case new_dict s of
             (financials, s1) \<Rightarrow>
               (case copy_fields_st str2float row financials (map fst r) s1 of
                  (Some e, s2) \<Rightarrow> (Inl e, s2)
                | (None, s2) \<Rightarrow>
                    (Inr financials,
                     recalc_gross_profit_st financials (sum_components_st financials s2)))))"

text \<open>
  What the caller holds after the call: the exception, or the dict found at the
  address returned.
\<close>

definition returned_dict :: "(error + nat) \<times> store \<Rightarrow> error + financials" where
  "returned_dict out =
     (case fst out of
        Inl e \<Rightarrow> Inl e
      | Inr a \<Rightarrow> (case dict_at (snd out) a of None \<Rightarrow> Inl AttributeError | Some d \<Rightarrow> Inr d))"

section \<open>Registering the additional revenue tags\<close>

text \<open>Lines 23 to 38: the table, in the order of the dict literal.\<close>

definition ADDITIONAL_REVENUE_TAGS :: "(string \<times> string) list" where
  "ADDITIONAL_REVENUE_TAGS =
     [(''RevenueFromContractWithCustomerIncludingAssessedTax'', ''revenue''),
      (''SalesRevenueGoodsNet'', ''revenue_products''),
      (''SalesRevenueServicesNet'', ''revenue_services''),
      (''RevenuesNetOfInterestExpense'', ''revenue''),
      (''RevenueNet'', ''revenue''),
      (''TotalRevenues'', ''revenue''),
      (''NetSales'', ''revenue''),
      (''SalesRevenueGoodsGross'', ''revenue''),
      (''TotalRevenuesAndOtherIncome'', ''revenue''),
      (''RevenueFromContractWithCustomerExcludingAssessedTaxTransferredAtPointInTime'',
       ''revenue_point''),
      (''RevenueFromContractWithCustomerExcludingAssessedTaxTransferredOverTime'',
       ''revenue_over_time'')]"

text \<open>
  Lines 41 to 43: the loop over the items. \<^verbatim>\<open>EDGAR_TAG_MAPPING\<close> is a global dict
  defined outside the file; the model takes it as an argument and returns the dict
  the loop leaves.
\<close>

fun register_tags ::
  "(string \<times> string) list \<Rightarrow> (string \<Rightarrow> string option) \<Rightarrow> (string \<Rightarrow> string option)" where
  "register_tags [] EDGAR_TAG_MAPPING = EDGAR_TAG_MAPPING"
| "register_tags ((tag, var) # items) EDGAR_TAG_MAPPING =
     register_tags items
       (if EDGAR_TAG_MAPPING tag = None then EDGAR_TAG_MAPPING(tag \<mapsto> var)
        else EDGAR_TAG_MAPPING)"

section \<open>Rows and their fields\<close>

text \<open>
  A filing row in the sense of the specification maps a field to a floating-point
  number or to "absent": every cell is a float or None.
\<close>

fun float_or_missing :: "cell \<Rightarrow> bool" where
  "float_or_missing NoneVal = True"
| "float_or_missing (FloatVal d) = True"
| "float_or_missing v = False"

definition filing_row :: "series \<Rightarrow> bool" where
  "filing_row row = list_all (\<lambda>(col, v). float_or_missing v) row"

text \<open>
  The number a row holds under a label, \<open>None\<close> when the field is absent (no such
  label, None or NaN).
\<close>

definition row_value :: "series \<Rightarrow> string \<Rightarrow> double option" where
  "row_value row col =
     (case map_of row col of
        Some (FloatVal d) \<Rightarrow> (if d = NaN then None else Some d)
      | _ \<Rightarrow> None)"

text \<open>A label whose value in the row is not missing.\<close>

definition present :: "series \<Rightarrow> string \<Rightarrow> bool" where
  "present row col = (case map_of row col of Some v \<Rightarrow> notna v | None \<Rightarrow> False)"

text \<open>
  A column whose value \<^verbatim>\<open>float\<close> refuses: it is not skipped, its value is not missing,
  and the conversion raises.
\<close>

definition rejected :: "(string \<Rightarrow> double option) \<Rightarrow> series \<Rightarrow> string \<Rightarrow> bool" where
  "rejected str2float row col =
     (col \<notin> set [''cik'', ''year''] \<and>
      (case map_of row col of
         Some v \<Rightarrow> notna v \<and> isl (py_float str2float v)
       | None \<Rightarrow> False))"

text \<open>
  What the loop stores under a label: the converted value of a cell that is not
  missing and that \<^verbatim>\<open>float\<close> accepts.
\<close>

definition converted :: "(string \<Rightarrow> double option) \<Rightarrow> series \<Rightarrow> string \<Rightarrow> double option" where
  "converted str2float row col =
     (if col \<in> set [''cik'', ''year''] then None
      else case map_of row col of
             Some v \<Rightarrow>
               (if notna v
                then (case py_float str2float v of Inl e \<Rightarrow> None | Inr x \<Rightarrow> Some x)
                else None)
           | None \<Rightarrow> None)"

text \<open>
  The builtin \<^verbatim>\<open>float\<close> restricted to the strings of decimal digits, where it returns
  the float nearest to the number the digits spell (\<^verbatim>\<open>float("123")\<close> is 123.0). It
  serves to run the model on concrete rows.
\<close>

definition digit_of :: "char \<Rightarrow> nat option" where
  "digit_of c = map_of (zip ''0123456789'' [0, 1, 2, 3, 4, 5, 6, 7, 8, 9]) c"

fun digits_value :: "nat \<Rightarrow> string \<Rightarrow> nat option" where
  "digits_value acc [] = Some acc"
| "digits_value acc (c # cs) =
     (case digit_of c of None \<Rightarrow> None | Some d \<Rightarrow> digits_value (10 * acc + d) cs)"

definition decimal_float :: "string \<Rightarrow> double option" where
  "decimal_float s =
     (if s = [] then None
      else map_option (\<lambda>n. round_double (real n)) (digits_value 0 s))"

section \<open>Reading results, and the rows of the scenarios\<close>

text \<open>The field of a result: the exception if the call raised, else the dict's entry.\<close>

definition result_field :: "error + financials \<Rightarrow> string \<Rightarrow> error + double option" where
  "result_field res key = (case res of Inl e \<Rightarrow> Inl e | Inr financials \<Rightarrow> Inr (financials key))"

text \<open>The same for the method, which may also return None.\<close>

definition returned_field ::
  "error + financials option \<Rightarrow> string \<Rightarrow> error + double option option" where
  "returned_field res key =
     (case res of
        Inl e \<Rightarrow> Inl e
      | Inr None \<Rightarrow> Inr None
      | Inr (Some financials) \<Rightarrow> Inr (Some (financials key)))"

text \<open>A loader that answers every query with one row, and one that has no data.\<close>

definition single_row_loader :: "series \<Rightarrow> loader" where
  "single_row_loader row cik years = Some [row]"

definition no_data_loader :: loader where
  "no_data_loader cik years = None"

text \<open>
  The row of the first scenario: Apple's partial revenue tag with both components and
  the cost of goods sold.
\<close>

definition apple_row :: series where
  "apple_row =
     [(''revenue'', FloatVal (Finite 181000000000)),
      (''revenue_products'', FloatVal (Finite 298085000000)),
      (''revenue_services'', FloatVal (Finite 85200000000)),
      (''cogs'', FloatVal (Finite 214137000000))]"

text \<open>The rows of scenarios 2, 3 and 4.\<close>

definition stale_row :: series where
  "stale_row =
     [(''revenue'', FloatVal (Finite 383285000000)),
      (''cogs'', FloatVal (Finite 214137000000)),
      (''gross_profit'', FloatVal (Finite 999))]"

definition receivable_row :: series where
  "receivable_row = [(''accounts_receivable'', FloatVal (Finite 29508000000))]"

definition components_row :: series where
  "components_row =
     [(''revenue_products'', FloatVal (Finite 100)),
      (''revenue_services'', FloatVal (Finite 50))]"

text \<open>The row of scenario 4 as the loader hands it over, with its cik and year.\<close>

definition keyed_row :: series where
  "keyed_row =
     [(''cik'', FloatVal (Finite 320193)), (''year'', FloatVal (Finite 2024)),
      (''revenue_products'', FloatVal (Finite 100)),
      (''revenue_services'', FloatVal (Finite 50))]"

text \<open>Rows with components that sum to zero and to a negative number, and no revenue.\<close>

definition zero_row :: series where
  "zero_row =
     [(''revenue_products'', FloatVal (Finite 0)), (''revenue_services'', FloatVal (Finite 0))]"

definition negative_row :: series where
  "negative_row =
     [(''revenue_products'', FloatVal (Finite (- 5))),
      (''revenue_services'', FloatVal (Finite 2))]"

text \<open>
  A row on which the arithmetic rounds: \<open>10\<^sup>1\<^sup>6 + 1\<close> and \<open>10\<^sup>1\<^sup>6 - 1/2\<close> are no floats,
  and both round to \<open>10\<^sup>1\<^sup>6\<close>.
\<close>

definition rounding_row :: series where
  "rounding_row =
     [(''revenue'', FloatVal (Finite 10000000000000000)),
      (''revenue_products'', FloatVal (Finite 10000000000000000)),
      (''revenue_services'', FloatVal (Finite 1)),
      (''cogs'', FloatVal (Finite (1 / 2)))]"

text \<open>
  Rows whose revenue is no float: text that is a numeral, text that is none, an
  integer too large for a float, and a complex number.
\<close>

definition text_row :: series where
  "text_row = [(''revenue'', StrVal ''123'')]"

definition garbled_row :: series where
  "garbled_row = [(''revenue'', StrVal ''n/a'')]"

definition huge_row :: series where
  "huge_row = [(''revenue'', IntVal (2 ^ 1024))]"

definition complex_row :: series where
  "complex_row = [(''revenue'', OtherVal)]"

text \<open>A tag mapping that already knows two of the additional tags.\<close>

definition sample_mapping :: "string \<Rightarrow> string option" where
  "sample_mapping =
     [''Revenues'' \<mapsto> ''revenue'', ''NetSales'' \<mapsto> ''net_sales'',
      ''SalesRevenueGoodsNet'' \<mapsto> ''revenue'']"

section \<open>Facts about floats\<close>

lemmas round_eval =
  round_double_def ilog2_def bit_length.simps pow2_def round_half_even_def Let_def

lemma round_double_not_NaN: "round_double x \<noteq> NaN"
  by (simp add: round_double_def Let_def)

lemma dadd_Finite_not_NaN: "dadd (Finite a) (Finite b) \<noteq> NaN"
  by (simp add: round_double_not_NaN)

lemma dgt_irrefl: "\<not> dgt x x"
  by (cases x) simp_all

lemma dge_refl: "x \<noteq> NaN \<Longrightarrow> dge x x"
  by (cases x) simp_all

lemma not_dgt_dge: "x \<noteq> NaN \<Longrightarrow> y \<noteq> NaN \<Longrightarrow> \<not> dgt y x \<Longrightarrow> dge x y"
  by (cases x; cases y) simp_all

text \<open>Rounding at work: the sum and the difference below are no floats.\<close>

lemma dadd_rounds: "dadd (Finite 10000000000000000) (Finite 1) = Finite 10000000000000000"
  by (simp add: round_eval)

lemma dsub_rounds: "dsub (Finite 10000000000000000) (Finite (1 / 2)) = Finite 10000000000000000"
  by (simp add: round_eval)

lemma round_double_tenth: "round_double (1 / 10) = Finite (3602879701896397 / 36028797018963968)"
  by (simp add: round_eval)

lemma round_double_cents:
  "round_double (30491227070309 / 100) = Finite (4995682643199427 / 16384)"
  "round_double (64315940346 / 100) = Finite (674401514642473 / 1048576)"
  by (simp_all add: round_eval)

lemma dsub_cents:
  "dsub (Finite (4995682643199427 / 16384)) (Finite (674401514642473 / 1048576))
     = Finite (2492572559766569 / 8192)"
  by (simp add: round_eval)

lemma dadd_cents:
  "dadd (Finite (5302428712241725 / 4294967296)) (Finite (8218764720870523 / 1073741824))
     = Finite (4772185949465477 / 536870912)"
  by (simp add: round_eval)

lemma round_double_ties:
  "round_double 9007199254740993 = Finite 9007199254740992"
  "round_double 9007199254740995 = Finite 9007199254740996"
  by (simp_all add: round_eval)

section \<open>The loop over the columns\<close>

lemma copy_fields_rejected:
  "\<exists>col\<in>set cols. rejected str2float row col \<Longrightarrow> set cols \<subseteq> fst ` set row \<Longrightarrow>
   isl (copy_fields str2float row cols financials)"
proof (induction cols arbitrary: financials)
  case Nil
  then show ?case by simp
next
  case (Cons col cols)
  show ?case
  proof (cases "rejected str2float row col")
    case True
    then obtain v where v: "map_of row col = Some v" "notna v" "isl (py_float str2float v)"
      and ns: "col \<notin> set [''cik'', ''year'']"
      by (auto simp: rejected_def split: option.splits)
    from v(3) obtain e where "py_float str2float v = Inl e"
      by (cases "py_float str2float v") auto
    with v ns show ?thesis by simp
  next
    case False
    with Cons.prems have ex: "\<exists>c\<in>set cols. rejected str2float row c"
      and sub: "set cols \<subseteq> fst ` set row" by auto
    have IH: "\<And>f. isl (copy_fields str2float row cols f)"
      using Cons.IH[OF ex sub] .
    from Cons.prems(2) have "col \<in> fst ` set row" by simp
    then obtain v where mv: "map_of row col = Some v"
      by (metis map_of_eq_None_iff not_None_eq)
    show ?thesis
    proof (cases "col \<in> set [''cik'', ''year'']")
      case True
      then show ?thesis using IH by simp
    next
      case ns: False
      show ?thesis
      proof (cases "notna v")
        case True
        with False mv ns have "\<not> isl (py_float str2float v)" by (simp add: rejected_def)
        then obtain x where "py_float str2float v = Inr x"
          by (cases "py_float str2float v") auto
        with True mv ns IH show ?thesis by simp
      next
        case False
        with mv ns IH show ?thesis by simp
      qed
    qed
  qed
qed

lemma copy_fields_accepted:
  "\<forall>col\<in>set cols. \<not> rejected str2float row col \<Longrightarrow> set cols \<subseteq> fst ` set row \<Longrightarrow>
   copy_fields str2float row cols financials =
     Inr (\<lambda>k. if k \<in> set cols
              then (case converted str2float row k of Some x \<Rightarrow> Some x | None \<Rightarrow> financials k)
              else financials k)"
proof (induction cols arbitrary: financials)
  case Nil
  then show ?case by simp
next
  case (Cons col cols)
  from Cons.prems have nr: "\<not> rejected str2float row col" and
    rest: "\<forall>c\<in>set cols. \<not> rejected str2float row c" "set cols \<subseteq> fst ` set row" by auto
  note IH = Cons.IH[OF rest]
  from Cons.prems(2) have "col \<in> fst ` set row" by simp
  then obtain v where mv: "map_of row col = Some v"
    by (metis map_of_eq_None_iff not_None_eq)
  show ?case
  proof (cases "col \<in> set [''cik'', ''year'']")
    case True
    then have "converted str2float row col = None" by (simp add: converted_def)
    with True show ?thesis by (auto simp: IH)
  next
    case ns: False
    show ?thesis
    proof (cases "notna v")
      case False
      with mv ns have "converted str2float row col = None" by (simp add: converted_def)
      with False mv ns show ?thesis by (auto simp: IH)
    next
      case True
      with nr mv ns have "\<not> isl (py_float str2float v)" by (simp add: rejected_def)
      then obtain x where x: "py_float str2float v = Inr x"
        by (cases "py_float str2float v") auto
      with True mv ns have "converted str2float row col = Some x" by (simp add: converted_def)
      with True mv ns x show ?thesis by (auto simp: IH split: option.splits)
    qed
  qed
qed

lemma converted_outside: "k \<notin> fst ` set row \<Longrightarrow> converted str2float row k = None"
  by (simp add: converted_def map_of_eq_None_iff[THEN iffD2])

lemma copy_fields_row:
  assumes "\<forall>col\<in>set (map fst row). \<not> rejected str2float row col"
  shows "copy_fields str2float row (map fst row) Map.empty = Inr (converted str2float row)"
proof -
  have "(\<lambda>k. if k \<in> set (map fst row)
              then (case converted str2float row k of Some x \<Rightarrow> Some x | None \<Rightarrow> None)
              else None) = converted str2float row"
    by (rule ext) (auto simp: converted_outside split: option.splits)
  with copy_fields_accepted[OF assms, of Map.empty] show ?thesis by simp
qed

lemma row_to_financials_accepted:
  "\<forall>col\<in>set (map fst row). \<not> rejected str2float row col \<Longrightarrow>
   row_to_financials str2float row =
     Inr (recalc_gross_profit (sum_components (converted str2float row)))"
  by (simp add: row_to_financials_def copy_fields_row)

lemma row_to_financials_rejected:
  assumes "\<exists>col\<in>set (map fst row). rejected str2float row col"
  shows "isl (row_to_financials str2float row)"
proof -
  have "isl (copy_fields str2float row (map fst row) Map.empty)"
    using assms by (rule copy_fields_rejected) simp
  then show ?thesis
    by (cases "copy_fields str2float row (map fst row) Map.empty")
       (simp_all add: row_to_financials_def)
qed

subsection \<open>Filing rows\<close>

lemma filing_row_cell:
  "filing_row row \<Longrightarrow> map_of row col = Some v \<Longrightarrow> float_or_missing v"
  by (auto simp: filing_row_def list_all_iff dest: map_of_SomeD)

lemma filing_row_not_rejected: "filing_row row \<Longrightarrow> \<not> rejected str2float row col"
proof
  assume f: "filing_row row" and r: "rejected str2float row col"
  from r obtain v where v: "map_of row col = Some v" "notna v" "isl (py_float str2float v)"
    by (auto simp: rejected_def split: option.splits)
  from filing_row_cell[OF f v(1)] v(2,3) show False
    by (cases v rule: float_or_missing.cases) simp_all
qed

lemma filing_row_converted:
  assumes "filing_row row"
  shows "converted str2float row col =
           (if col \<in> set [''cik'', ''year''] then None else row_value row col)"
proof (cases "map_of row col")
  case None
  then show ?thesis by (simp add: converted_def row_value_def)
next
  case (Some v)
  from filing_row_cell[OF assms Some] show ?thesis
  proof (cases v rule: float_or_missing.cases)
    case (2 d)
    with Some show ?thesis by (cases d) (simp_all add: converted_def row_value_def)
  qed (use Some in \<open>simp_all add: converted_def row_value_def\<close>)
qed

lemma row_value_not_NaN: "row_value row col \<noteq> Some NaN"
  by (simp add: row_value_def split: option.splits cell.splits)

lemma row_to_financials_filing:
  "filing_row row \<Longrightarrow>
   row_to_financials str2float row =
     Inr (recalc_gross_profit (sum_components (converted str2float row)))"
  by (simp add: row_to_financials_accepted filing_row_not_rejected)

subsection \<open>The two fixes on a dict\<close>

lemma recalc_other: "key \<noteq> ''gross_profit'' \<Longrightarrow> recalc_gross_profit d key = d key"
  by (simp add: recalc_gross_profit_def split: option.splits)

lemma sum_other: "key \<noteq> ''revenue'' \<Longrightarrow> sum_components d key = d key"
  by (simp add: sum_components_def Let_def)

lemma sum_revenue:
  "d ''revenue_products'' = Some A \<Longrightarrow> d ''revenue_services'' = Some B \<Longrightarrow>
   sum_components d ''revenue'' =
     (case d ''revenue'' of
        Some R \<Rightarrow> Some (dmax R (dadd A B))
      | None \<Rightarrow> if dgt (dadd A B) (Finite 0) then Some (dadd A B) else None)"
  by (auto simp: sum_components_def dict_get_def Let_def dmax_def split: option.splits)

lemma sum_revenue_unchanged:
  "d ''revenue_products'' = None \<or> d ''revenue_services'' = None \<Longrightarrow>
   sum_components d ''revenue'' = d ''revenue''"
  by (auto simp: sum_components_def)

lemma recalc_gross_profit_value:
  "d ''revenue'' = Some r \<Longrightarrow> d ''cogs'' = Some c \<Longrightarrow>
   recalc_gross_profit d ''gross_profit'' = Some (dsub r c)"
  by (simp add: recalc_gross_profit_def)

section \<open>The scenario, evaluated\<close>

text \<open>
  Claim C8. On the row with revenue 181000000000, revenue_products 298085000000,
  revenue_services 85200000000 and cogs 214137000000, the result has revenue
  383285000000 and gross_profit 169148000000, whatever \<^verbatim>\<open>float\<close> does on strings.
\<close>

theorem C8_apple_scenario:
  "result_field (row_to_financials str2float apple_row) ''revenue''
     = Inr (Some (Finite 383285000000))
   \<and> result_field (row_to_financials str2float apple_row) ''gross_profit''
       = Inr (Some (Finite 169148000000))"
  by (simp add: result_field_def row_to_financials_def apple_row_def sum_components_def
      recalc_gross_profit_def dict_get_def round_eval)

section \<open>The component sum\<close>

text \<open>
  Claim C1, as the code has it. On a filing row with revenue_products \<open>A\<close> and
  revenue_services \<open>B\<close>, the call returns a dict whose revenue is \<^verbatim>\<open>max(R, A + B)\<close>
  when the row has revenue \<open>R\<close>, the sum being the float sum of line 74. When the row
  has no revenue, the revenue is that sum if it is greater than 0, and revenue stays
  absent otherwise, as it does with both components zero (the sum is compared with
  \<^verbatim>\<open>financials.get('revenue', 0)\<close>).
\<close>

theorem C1_component_dominance:
  assumes "filing_row row"
    and "row_value row ''revenue_products'' = Some A"
    and "row_value row ''revenue_services'' = Some B"
  shows "result_field (row_to_financials str2float row) ''revenue'' =
           Inr (case row_value row ''revenue'' of
                  Some R \<Rightarrow> Some (dmax R (dadd A B))
                | None \<Rightarrow> if dgt (dadd A B) (Finite 0) then Some (dadd A B) else None)"
proof -
  let ?d = "converted str2float row"
  have "?d ''revenue_products'' = Some A" "?d ''revenue_services'' = Some B"
       "?d ''revenue'' = row_value row ''revenue''"
    using assms(2,3) by (simp_all add: filing_row_converted[OF assms(1)])
  then show ?thesis
    by (simp add: row_to_financials_filing[OF assms(1)] result_field_def recalc_other sum_revenue)
qed

theorem C1_component_dominance_witness:
  "filing_row rounding_row
   \<and> row_value rounding_row ''revenue_products'' = Some (Finite 10000000000000000)
   \<and> row_value rounding_row ''revenue_services'' = Some (Finite 1)
   \<and> row_value rounding_row ''revenue'' = Some (Finite 10000000000000000)
   \<and> result_field (row_to_financials decimal_float rounding_row) ''revenue''
       = Inr (Some (Finite 10000000000000000))
   \<and> filing_row components_row
   \<and> row_value components_row ''revenue_products'' = Some (Finite 100)
   \<and> row_value components_row ''revenue_services'' = Some (Finite 50)
   \<and> row_value components_row ''revenue'' = None
   \<and> result_field (row_to_financials decimal_float components_row) ''revenue''
       = Inr (Some (Finite 150))"
proof -
  have h: "filing_row rounding_row"
      "row_value rounding_row ''revenue_products'' = Some (Finite 10000000000000000)"
      "row_value rounding_row ''revenue_services'' = Some (Finite 1)"
    by (simp_all add: filing_row_def rounding_row_def row_value_def)
  have r: "row_value rounding_row ''revenue'' = Some (Finite 10000000000000000)"
    by (simp add: rounding_row_def row_value_def)
  have k: "filing_row components_row"
      "row_value components_row ''revenue_products'' = Some (Finite 100)"
      "row_value components_row ''revenue_services'' = Some (Finite 50)"
    by (simp_all add: filing_row_def components_row_def row_value_def)
  have n: "row_value components_row ''revenue'' = None"
    by (simp add: components_row_def row_value_def)
  have s: "dadd (Finite 100) (Finite 50) = Finite 150" by (simp add: round_eval)
  from C1_component_dominance[OF h, of decimal_float]
    C1_component_dominance[OF k, of decimal_float] h r k n s
  show ?thesis by (simp add: dmax_def round_eval)
qed

text \<open>
  The specification asks for revenue \<open>A + B\<close> whenever the row has no revenue. With
  both components zero the call leaves revenue absent.
\<close>

theorem C1_zero_sum_counterexample:
  "filing_row zero_row
   \<and> row_value zero_row ''revenue_products'' = Some (Finite 0)
   \<and> row_value zero_row ''revenue_services'' = Some (Finite 0)
   \<and> row_value zero_row ''revenue'' = None
   \<and> dadd (Finite 0) (Finite 0) = Finite 0
   \<and> result_field (row_to_financials decimal_float zero_row) ''revenue'' = Inr None"
  by (simp add: filing_row_def zero_row_def row_value_def result_field_def row_to_financials_def
      sum_components_def recalc_gross_profit_def dict_get_def round_eval)

section \<open>The gross profit\<close>

text \<open>
  Claim C2. When the loop has run and the dict after the component sum holds revenue
  \<open>r\<close> and cogs \<open>c\<close>, the call returns a dict whose gross_profit is the float
  difference \<open>r - c\<close> of line 81, whatever gross_profit the row reported; revenue and
  cogs are returned as they were.
\<close>

theorem C2_gross_profit_recomputed:
  assumes "copy_fields str2float row (map fst row) Map.empty = Inr copied"
    and "sum_components copied ''revenue'' = Some r"
    and "sum_components copied ''cogs'' = Some c"
  shows "result_field (row_to_financials str2float row) ''gross_profit''
           = Inr (Some (dsub r c))
         \<and> result_field (row_to_financials str2float row) ''revenue'' = Inr (Some r)
         \<and> result_field (row_to_financials str2float row) ''cogs'' = Inr (Some c)"
  using assms
  by (simp add: row_to_financials_def result_field_def recalc_gross_profit_value recalc_other)

theorem C2_gross_profit_recomputed_witness:
  "copy_fields decimal_float stale_row (map fst stale_row) Map.empty =
     Inr [''revenue'' \<mapsto> Finite 383285000000, ''cogs'' \<mapsto> Finite 214137000000,
          ''gross_profit'' \<mapsto> Finite 999]
   \<and> sum_components [''revenue'' \<mapsto> Finite 383285000000, ''cogs'' \<mapsto> Finite 214137000000,
        ''gross_profit'' \<mapsto> Finite 999] ''revenue'' = Some (Finite 383285000000)
   \<and> sum_components [''revenue'' \<mapsto> Finite 383285000000, ''cogs'' \<mapsto> Finite 214137000000,
        ''gross_profit'' \<mapsto> Finite 999] ''cogs'' = Some (Finite 214137000000)
   \<and> result_field (row_to_financials decimal_float stale_row) ''gross_profit''
       = Inr (Some (Finite 169148000000))"
proof -
  let ?d = "[''revenue'' \<mapsto> Finite 383285000000, ''cogs'' \<mapsto> Finite 214137000000,
             ''gross_profit'' \<mapsto> Finite 999]"
  have h: "copy_fields decimal_float stale_row (map fst stale_row) Map.empty = Inr ?d"
      "sum_components ?d ''revenue'' = Some (Finite 383285000000)"
      "sum_components ?d ''cogs'' = Some (Finite 214137000000)"
    by (simp_all add: stale_row_def sum_components_def)
  have s: "dsub (Finite 383285000000) (Finite 214137000000) = Finite 169148000000"
    by (simp add: round_eval)
  from C2_gross_profit_recomputed[OF h] h s show ?thesis by simp
qed

text \<open>
  The difference is the float one: on the rounding row the exact difference
  \<open>10\<^sup>1\<^sup>6 - 1/2\<close> is no float, and gross_profit is \<open>10\<^sup>1\<^sup>6\<close>.
\<close>

lemma rounding_row_gross_profit:
  "result_field (row_to_financials str2float rounding_row) ''gross_profit''
     = Inr (Some (Finite 10000000000000000))"
  by (simp add: result_field_def row_to_financials_def rounding_row_def sum_components_def
      recalc_gross_profit_def dict_get_def round_eval)

section \<open>Revenue against its components\<close>

text \<open>
  Claim C3, as the code has it. On a filing row with finite revenue_products \<open>a\<close> and
  revenue_services \<open>b\<close>, of any sign, the call returns a dict with both components
  unchanged; a revenue in that dict is at least the float sum of \<open>a\<close> and \<open>b\<close>, and
  the dict has no revenue only when the row had none and that sum is not greater
  than 0.
\<close>

theorem C3_revenue_covers_components:
  assumes "filing_row row"
    and "row_value row ''revenue_products'' = Some (Finite a)"
    and "row_value row ''revenue_services'' = Some (Finite b)"
  shows "result_field (row_to_financials str2float row) ''revenue_products''
           = Inr (Some (Finite a))
         \<and> result_field (row_to_financials str2float row) ''revenue_services''
             = Inr (Some (Finite b))
         \<and> (case result_field (row_to_financials str2float row) ''revenue'' of
               Inr (Some revenue) \<Rightarrow> dge revenue (dadd (Finite a) (Finite b))
             | Inr None \<Rightarrow> row_value row ''revenue'' = None
                            \<and> \<not> dgt (dadd (Finite a) (Finite b)) (Finite 0)
             | Inl e \<Rightarrow> False)"
proof -
  let ?d = "converted str2float row"
  define t where "t = dadd (Finite a) (Finite b)"
  have d: "?d ''revenue_products'' = Some (Finite a)" "?d ''revenue_services'' = Some (Finite b)"
       "?d ''revenue'' = row_value row ''revenue''"
    using assms(2,3) by (simp_all add: filing_row_converted[OF assms(1)])
  have t: "t \<noteq> NaN" unfolding t_def by (rule dadd_Finite_not_NaN)
  have res: "row_to_financials str2float row = Inr (recalc_gross_profit (sum_components ?d))"
    by (rule row_to_financials_filing[OF assms(1)])
  have field: "result_field (row_to_financials str2float row) key = Inr (sum_components ?d key)"
    if "key \<noteq> ''gross_profit''" for key
    using that by (simp add: res result_field_def recalc_other)
  have sr: "sum_components ?d ''revenue'' =
              (case row_value row ''revenue'' of
                 Some R \<Rightarrow> Some (dmax R t)
               | None \<Rightarrow> if dgt t (Finite 0) then Some t else None)"
    unfolding t_def using sum_revenue[OF d(1,2)] d(3) by simp
  have main: "(case result_field (row_to_financials str2float row) ''revenue'' of
                 Inr (Some revenue) \<Rightarrow> dge revenue t
               | Inr None \<Rightarrow> row_value row ''revenue'' = None \<and> \<not> dgt t (Finite 0)
               | Inl e \<Rightarrow> False)"
  proof (cases "row_value row ''revenue''")
    case None
    then show ?thesis by (simp add: field sr dge_refl[OF t])
  next
    case (Some R)
    then have R: "R \<noteq> NaN" using row_value_not_NaN[of row "''revenue''"] by auto
    have "dge (dmax R t) t" using R t by (simp add: dmax_def dge_refl not_dgt_dge)
    with Some show ?thesis by (simp add: field sr)
  qed
  have "result_field (row_to_financials str2float row) ''revenue_products''
          = Inr (Some (Finite a))"
       "result_field (row_to_financials str2float row) ''revenue_services''
          = Inr (Some (Finite b))"
    using d by (simp_all add: field sum_other)
  with main show ?thesis unfolding t_def by blast
qed

theorem C3_revenue_covers_components_witness:
  "filing_row apple_row
   \<and> row_value apple_row ''revenue_products'' = Some (Finite 298085000000)
   \<and> row_value apple_row ''revenue_services'' = Some (Finite 85200000000)
   \<and> (case result_field (row_to_financials decimal_float apple_row) ''revenue'' of
         Inr (Some revenue) \<Rightarrow> dge revenue (dadd (Finite 298085000000) (Finite 85200000000))
       | Inr None \<Rightarrow> row_value apple_row ''revenue'' = None
                      \<and> \<not> dgt (dadd (Finite 298085000000) (Finite 85200000000)) (Finite 0)
       | Inl e \<Rightarrow> False)"
proof -
  have h: "filing_row apple_row"
      "row_value apple_row ''revenue_products'' = Some (Finite 298085000000)"
      "row_value apple_row ''revenue_services'' = Some (Finite 85200000000)"
    by (simp_all add: filing_row_def apple_row_def row_value_def)
  from C3_revenue_covers_components[OF h, of decimal_float] h show ?thesis by simp
qed

text \<open>
  The specification asks for a revenue in every such result. With components
  \<open>- 5\<close> and \<open>2\<close> and no revenue in the row, the result has no revenue.
\<close>

theorem C3_negative_sum_counterexample:
  "filing_row negative_row
   \<and> row_value negative_row ''revenue_products'' = Some (Finite (- 5))
   \<and> row_value negative_row ''revenue_services'' = Some (Finite 2)
   \<and> result_field (row_to_financials decimal_float negative_row) ''revenue'' = Inr None"
  by (simp add: filing_row_def negative_row_def row_value_def result_field_def
      row_to_financials_def sum_components_def recalc_gross_profit_def dict_get_def round_eval)

section \<open>Exceptions\<close>

text \<open>
  Claim C4, as the code has it. On a row with distinct labels: a call on a filing
  row never raises, whichever fields are absent; and a call raises whenever
  \<^verbatim>\<open>float\<close> refuses the value, not missing, of some column other than cik and year. A
  value that is not a number and that \<^verbatim>\<open>float\<close> accepts is converted.
\<close>

theorem C4_errors:
  assumes "distinct (map fst row)"
  shows "(filing_row row \<longrightarrow> \<not> isl (row_to_financials str2float row))
         \<and> ((\<exists>col\<in>set (map fst row). rejected str2float row col)
                \<longrightarrow> isl (row_to_financials str2float row))"
proof (cases "\<exists>col\<in>set (map fst row). rejected str2float row col")
  case True
  from row_to_financials_rejected[OF True] True filing_row_not_rejected[of row str2float]
  show ?thesis by auto
next
  case False
  then have "\<forall>col\<in>set (map fst row). \<not> rejected str2float row col" by blast
  from row_to_financials_accepted[OF this] False show ?thesis by simp
qed

theorem C4_errors_witness:
  "distinct (map fst receivable_row) \<and> filing_row receivable_row
   \<and> \<not> isl (row_to_financials decimal_float receivable_row)
   \<and> distinct (map fst garbled_row) \<and> rejected decimal_float garbled_row ''revenue''
   \<and> isl (row_to_financials decimal_float garbled_row)
   \<and> distinct (map fst complex_row) \<and> rejected decimal_float complex_row ''revenue''
   \<and> isl (row_to_financials decimal_float complex_row)"
proof -
  have d: "distinct (map fst receivable_row)" "distinct (map fst garbled_row)"
      "distinct (map fst complex_row)"
    by (simp_all add: receivable_row_def garbled_row_def complex_row_def)
  have f: "filing_row receivable_row" by (simp add: filing_row_def receivable_row_def)
  have r: "rejected decimal_float garbled_row ''revenue''"
      "rejected decimal_float complex_row ''revenue''"
    by (simp_all add: rejected_def garbled_row_def complex_row_def decimal_float_def
        digit_of_def)
  then have e: "\<exists>col\<in>set (map fst garbled_row). rejected decimal_float garbled_row col"
      "\<exists>col\<in>set (map fst complex_row). rejected decimal_float complex_row col"
    by (simp_all add: garbled_row_def complex_row_def)
  from C4_errors[OF d(1), of decimal_float] C4_errors[OF d(2), of decimal_float]
    C4_errors[OF d(3), of decimal_float] d f r e
  show ?thesis by blast
qed

text \<open>
  The specification asks for an error on every value that is not a number. The
  string \<^verbatim>\<open>"123"\<close> under revenue is converted to 123.0 and the call returns.
\<close>

theorem C4_numeric_text_counterexample:
  "\<not> float_or_missing (StrVal ''123'')
   \<and> map_of text_row ''revenue'' = Some (StrVal ''123'')
   \<and> row_to_financials decimal_float text_row = Inr [''revenue'' \<mapsto> Finite 123]"
  by (simp add: text_row_def row_to_financials_def decimal_float_def digit_of_def
      sum_components_def recalc_gross_profit_def round_eval)

text \<open>
  The exceptions of \<^verbatim>\<open>float\<close>, each on a row: ValueError on text that is no numeral,
  TypeError on a complex number, OverflowError on the integer \<open>2\<^sup>1\<^sup>0\<^sup>2\<^sup>4\<close>.
\<close>

lemma bit_length_pow2: "bit_length (2 ^ n) = int n + 1"
proof (induction n)
  case 0
  show ?case by (simp add: bit_length.simps)
next
  case (Suc n)
  have "(2::int) ^ Suc n div 2 = 2 ^ n" by simp
  moreover have "\<not> (2::int) ^ Suc n \<le> 0" by simp
  ultimately have "bit_length (2 ^ Suc n) = bit_length (2 ^ n) + 1"
    using bit_length.simps[of "2 ^ Suc n"] by (simp only: if_False)
  with Suc show ?case by simp
qed

lemma ilog2_pow2: "ilog2 (2 ^ n) = int n"
proof -
  have "(2::real) ^ n = of_int (2 ^ n)" by simp
  then have "\<lfloor>(2::real) ^ n\<rfloor> = 2 ^ n" by (simp only: floor_of_int)
  moreover have "(1::real) \<le> 2 ^ n" by simp
  ultimately show ?thesis by (simp add: ilog2_def bit_length_pow2)
qed

lemma round_double_overflow:
  assumes "972 \<le> k"
  shows "round_double (2 ^ (k + 52)) = PInf"
proof -
  have q: "max (ilog2 \<bar>(2::real) ^ (k + 52)\<bar> - 52) (- 1074) = int k"
    by (simp add: ilog2_pow2)
  have p: "pow2 (int k) = 2 ^ k" by (simp add: pow2_def)
  have d: "(2::real) ^ (k + 52) / 2 ^ k = 2 ^ 52" by (simp add: power_add)
  have r: "round_half_even (2 ^ 52) = 2 ^ 52" by (simp add: round_half_even_def)
  have y: "real_of_int (2 ^ 52) * 2 ^ k = 2 ^ (k + 52)" by (simp add: power_add)
  have big: "(2::real) ^ 1024 \<le> 2 ^ (k + 52)"
    using assms by (intro power_increasing) simp_all
  have nz: "(2::real) ^ (k + 52) \<noteq> 0" by simp
  show ?thesis
    unfolding round_double_def Let_def q p d r y using big nz by (simp only: if_True if_False)
qed

lemma float_errors:
  "row_to_financials decimal_float garbled_row = Inl ValueError"
  "row_to_financials str2float complex_row = Inl TypeError"
  "row_to_financials str2float huge_row = Inl OverflowError"
proof -
  show "row_to_financials decimal_float garbled_row = Inl ValueError"
    by (simp add: row_to_financials_def garbled_row_def decimal_float_def digit_of_def)
  show "row_to_financials str2float complex_row = Inl TypeError"
    by (simp add: row_to_financials_def complex_row_def)
  have "real_of_int (2 ^ 1024) = 2 ^ (972 + 52)" by simp
  moreover have "round_double (2 ^ (972 + 52)) = PInf"
    by (rule round_double_overflow) simp
  ultimately have "round_double (real_of_int (2 ^ 1024)) = PInf"
    by (simp only:)
  then show "row_to_financials str2float huge_row = Inl OverflowError"
    by (simp add: row_to_financials_def huge_row_def)
qed

section \<open>Rows without revenue components\<close>

lemma notna_FloatVal: "notna (FloatVal d) \<longleftrightarrow> d \<noteq> NaN"
  by (cases d) simp_all

text \<open>
  Claim C5. On a filing row in which neither revenue_products nor revenue_services is
  present, the call returns a dict whose revenue is the row's: the same value when
  the row has one, absent when it has none.
\<close>

theorem C5_revenue_unchanged:
  assumes "filing_row row"
    and "\<not> present row ''revenue_products''"
    and "\<not> present row ''revenue_services''"
  shows "result_field (row_to_financials str2float row) ''revenue''
           = Inr (row_value row ''revenue'')"
proof -
  have absent: "row_value row col = None" if "\<not> present row col" for col
    using that
    by (auto simp: present_def row_value_def notna_FloatVal split: option.splits cell.splits)
  let ?d = "converted str2float row"
  have "?d ''revenue_products'' = None" "?d ''revenue'' = row_value row ''revenue''"
    using absent[OF assms(2)] by (simp_all add: filing_row_converted[OF assms(1)])
  then show ?thesis
    by (simp add: row_to_financials_filing[OF assms(1)] result_field_def recalc_other
        sum_revenue_unchanged)
qed

theorem C5_revenue_unchanged_witness:
  "filing_row receivable_row
   \<and> \<not> present receivable_row ''revenue_products''
   \<and> \<not> present receivable_row ''revenue_services''
   \<and> row_value receivable_row ''revenue'' = None
   \<and> result_field (row_to_financials decimal_float receivable_row) ''revenue'' = Inr None
   \<and> filing_row stale_row
   \<and> \<not> present stale_row ''revenue_products''
   \<and> \<not> present stale_row ''revenue_services''
   \<and> result_field (row_to_financials decimal_float stale_row) ''revenue''
       = Inr (Some (Finite 383285000000))"
proof -
  have h: "filing_row receivable_row" "\<not> present receivable_row ''revenue_products''"
      "\<not> present receivable_row ''revenue_services''"
    by (simp_all add: filing_row_def receivable_row_def present_def)
  have k: "filing_row stale_row" "\<not> present stale_row ''revenue_products''"
      "\<not> present stale_row ''revenue_services''"
    by (simp_all add: filing_row_def stale_row_def present_def)
  have v: "row_value receivable_row ''revenue'' = None"
      "row_value stale_row ''revenue'' = Some (Finite 383285000000)"
    by (simp_all add: receivable_row_def stale_row_def row_value_def)
  from C5_revenue_unchanged[OF h, of decimal_float] C5_revenue_unchanged[OF k, of decimal_float]
    h k v show ?thesis by simp
qed

section \<open>The method and the loader\<close>

text \<open>
  Claim C9. When \<^verbatim>\<open>get_company_financials(cik, [year])\<close> answers None or a data frame
  without rows, the method returns None: no dict and no exception.
\<close>

theorem C9_no_data:
  assumes "self cik [year] = None \<or> self cik [year] = Some []"
  shows "fixed_to_financials_dict str2float self cik year = Inr None"
  using assms by (auto simp: fixed_to_financials_dict_def)

theorem C9_no_data_witness:
  "(no_data_loader 320193 [2024] = None \<or> no_data_loader 320193 [2024] = Some [])
   \<and> fixed_to_financials_dict decimal_float no_data_loader 320193 2024 = Inr None"
proof -
  have h: "no_data_loader 320193 [2024] = None \<or> no_data_loader 320193 [2024] = Some []"
    by (simp add: no_data_loader_def)
  from C9_no_data[where self = no_data_loader and cik = 320193 and year = 2024
      and str2float = decimal_float] h
  show ?thesis by simp
qed

lemma row_result:
  assumes "self cik [year] = Some (row # rest)"
    and "fixed_to_financials_dict str2float self cik year = Inr (Some financials)"
  shows "financials = recalc_gross_profit (sum_components (converted str2float row))"
proof -
  from assms have r: "row_to_financials str2float row = Inr financials"
    by (simp add: fixed_to_financials_dict_def split: sum.splits)
  then have "\<not> (\<exists>col\<in>set (map fst row). rejected str2float row col)"
    using row_to_financials_rejected[of row str2float] by auto
  then have "\<forall>col\<in>set (map fst row). \<not> rejected str2float row col" by blast
  from row_to_financials_accepted[OF this] r show ?thesis by simp
qed

lemma converted_present:
  "converted str2float row key \<noteq> None \<Longrightarrow> present row key \<and> key \<notin> set [''cik'', ''year'']"
  by (auto simp: converted_def present_def split: if_splits option.splits)

lemma sum_components_keys:
  "sum_components d key \<noteq> None \<Longrightarrow>
   d key \<noteq> None \<or>
   (key = ''revenue'' \<and> d ''revenue_products'' \<noteq> None \<and> d ''revenue_services'' \<noteq> None)"
  by (auto simp: sum_components_def Let_def split: if_splits)

lemma recalc_gross_profit_keys:
  "recalc_gross_profit d key \<noteq> None \<Longrightarrow>
   d key \<noteq> None \<or> (key = ''gross_profit'' \<and> d ''revenue'' \<noteq> None \<and> d ''cogs'' \<noteq> None)"
  by (auto simp: recalc_gross_profit_def split: option.splits if_splits)

text \<open>
  Claim C10, as the code has it. The dict the method returns for a row never has the
  keys cik and year. It has a key only when the row's value under it is not missing,
  or the key is revenue and both components are present in the row, or the key is
  gross_profit and the dict has revenue and cogs. Its values are floats by the type
  of the dict.
\<close>

theorem C10_keys_of_result:
  assumes "self cik [year] = Some (row # rest)"
    and "fixed_to_financials_dict str2float self cik year = Inr (Some financials)"
  shows "financials ''cik'' = None \<and> financials ''year'' = None
         \<and> (\<forall>key. financials key \<noteq> None \<longrightarrow>
               present row key
               \<or> (key = ''revenue'' \<and> present row ''revenue_products''
                    \<and> present row ''revenue_services'')
               \<or> (key = ''gross_profit'' \<and> financials ''revenue'' \<noteq> None
                    \<and> financials ''cogs'' \<noteq> None))"
proof -
  let ?c = "converted str2float row"
  let ?s = "sum_components ?c"
  have fin: "financials = recalc_gross_profit ?s" by (rule row_result[OF assms])
  have skip: "?c ''cik'' = None" "?c ''year'' = None" by (simp_all add: converted_def)
  have "financials ''cik'' = None" "financials ''year'' = None"
    using skip by (simp_all add: fin recalc_other sum_other)
  moreover have "present row key
               \<or> (key = ''revenue'' \<and> present row ''revenue_products''
                    \<and> present row ''revenue_services'')
               \<or> (key = ''gross_profit'' \<and> financials ''revenue'' \<noteq> None
                    \<and> financials ''cogs'' \<noteq> None)" if k: "financials key \<noteq> None" for key
  proof -
    from k have "?s key \<noteq> None \<or> (key = ''gross_profit'' \<and> ?s ''revenue'' \<noteq> None \<and> ?s ''cogs'' \<noteq> None)"
      unfolding fin by (rule recalc_gross_profit_keys)
    then show ?thesis
    proof
      assume "?s key \<noteq> None"
      from sum_components_keys[OF this] show ?thesis
        using converted_present[of str2float row] by blast
    next
      assume "key = ''gross_profit'' \<and> ?s ''revenue'' \<noteq> None \<and> ?s ''cogs'' \<noteq> None"
      then show ?thesis by (simp add: fin recalc_other)
    qed
  qed
  ultimately show ?thesis by blast
qed

theorem C10_keys_of_result_witness:
  "single_row_loader keyed_row 320193 [2024] = Some [keyed_row]
   \<and> fixed_to_financials_dict decimal_float (single_row_loader keyed_row) 320193 2024
       = Inr (Some [''revenue_products'' \<mapsto> Finite 100, ''revenue_services'' \<mapsto> Finite 50,
                    ''revenue'' \<mapsto> Finite 150])
   \<and> present keyed_row ''cik'' \<and> present keyed_row ''year''
   \<and> [''revenue_products'' \<mapsto> Finite 100, ''revenue_services'' \<mapsto> Finite 50,
       ''revenue'' \<mapsto> Finite 150] ''cik'' = None
   \<and> [''revenue_products'' \<mapsto> Finite 100, ''revenue_services'' \<mapsto> Finite 50,
       ''revenue'' \<mapsto> Finite 150] ''year'' = None
   \<and> \<not> present keyed_row ''revenue''
   \<and> present keyed_row ''revenue_products'' \<and> present keyed_row ''revenue_services''"
proof -
  let ?d = "[''revenue_products'' \<mapsto> Finite 100, ''revenue_services'' \<mapsto> Finite 50,
             ''revenue'' \<mapsto> Finite 150]"
  have h: "single_row_loader keyed_row 320193 [2024] = Some (keyed_row # [])"
      "fixed_to_financials_dict decimal_float (single_row_loader keyed_row) 320193 2024
         = Inr (Some ?d)"
    by (simp_all add: single_row_loader_def fixed_to_financials_dict_def row_to_financials_def
        keyed_row_def sum_components_def recalc_gross_profit_def dict_get_def round_eval)
  have p: "present keyed_row ''cik''" "present keyed_row ''year''"
      "\<not> present keyed_row ''revenue''" "?d ''revenue'' \<noteq> None"
    by (simp_all add: present_def keyed_row_def)
  from C10_keys_of_result[OF h] have
    "?d ''cik'' = None" "?d ''year'' = None"
    "?d ''revenue'' \<noteq> None \<longrightarrow>
       present keyed_row ''revenue''
       \<or> (present keyed_row ''revenue_products'' \<and> present keyed_row ''revenue_services'')
       \<or> (''revenue'' = ''gross_profit'' \<and> ?d ''revenue'' \<noteq> None \<and> ?d ''cogs'' \<noteq> None)"
    by blast+
  with h p show ?thesis by simp
qed

text \<open>
  The claim allows a key only where the row has a value. The row of
  scenario 4 has no revenue, and the dict returned for it has revenue 150.
\<close>

theorem C10_derived_revenue_counterexample:
  "\<not> present components_row ''revenue''
   \<and> returned_field
       (fixed_to_financials_dict decimal_float (single_row_loader components_row) 320193 2024)
       ''revenue'' = Inr (Some (Some (Finite 150)))"
  by (simp add: present_def components_row_def returned_field_def single_row_loader_def
      fixed_to_financials_dict_def row_to_financials_def sum_components_def
      recalc_gross_profit_def dict_get_def round_eval)

section \<open>The registration loop\<close>

lemma register_tags_keeps:
  "m tag = Some var \<Longrightarrow> register_tags items m tag = Some var"
proof (induction items arbitrary: m)
  case Nil
  then show ?case by simp
next
  case (Cons item items)
  obtain t v where item: "item = (t, v)" by (cases item)
  show ?case
  proof (cases "m t = None")
    case True
    with Cons.prems have "t \<noteq> tag" by auto
    with Cons.prems have "(m(t \<mapsto> v)) tag = Some var" by simp
    then have "register_tags items (m(t \<mapsto> v)) tag = Some var" by (rule Cons.IH)
    with True item show ?thesis by simp
  next
    case False
    then obtain y where y: "m t = Some y" by auto
    from Cons.prems have "register_tags items m tag = Some var" by (rule Cons.IH)
    with y item show ?thesis by simp
  qed
qed

text \<open>
  Claim C7. The loop that registers the additional tags keeps every entry of the
  mapping it starts from: a tag present before is present afterwards, with the same
  field.
\<close>

theorem C7_registration_keeps_entries:
  assumes "EDGAR_TAG_MAPPING tag = Some var"
  shows "register_tags ADDITIONAL_REVENUE_TAGS EDGAR_TAG_MAPPING tag = Some var"
  using assms by (rule register_tags_keeps)

theorem C7_registration_keeps_entries_witness:
  "sample_mapping ''NetSales'' = Some ''net_sales''
   \<and> register_tags ADDITIONAL_REVENUE_TAGS sample_mapping ''NetSales'' = Some ''net_sales''"
proof -
  have h: "sample_mapping ''NetSales'' = Some ''net_sales''"
    by (simp add: sample_mapping_def)
  from C7_registration_keeps_entries[where EDGAR_TAG_MAPPING = sample_mapping
      and tag = "''NetSales''" and var = "''net_sales''"] h
  show ?thesis by simp
qed

section \<open>The call on the store\<close>

text \<open>
  The dict under construction is the only object the statements write: the loop on
  the store runs as the loop on values does, and the store changes at the address of
  the dict alone.
\<close>

lemma dict_at_nth: "dict_at s f = Some d \<Longrightarrow> f < length s \<and> s ! f = DictObj d"
  by (auto simp: dict_at_def split: if_splits obj.splits)

lemma series_at_nth: "series_at s a = Some r \<Longrightarrow> a < length s \<and> s ! a = SeriesObj r"
  by (auto simp: series_at_def split: if_splits obj.splits)

lemma dict_at_update: "f < length s \<Longrightarrow> dict_at (s[f := DictObj d]) f = Some d"
  by (simp add: dict_at_def)

lemma series_at_update:
  "series_at s a = Some r \<Longrightarrow> dict_at s f = Some d0 \<Longrightarrow>
   series_at (s[f := DictObj d]) a = Some r"
  by (auto simp: series_at_def dict_at_def nth_list_update split: if_splits obj.splits)

lemma dict_set_update:
  "dict_at s f = Some d \<Longrightarrow> dict_set s f key x = s[f := DictObj (d(key \<mapsto> x))]"
  by (simp add: dict_set_def)

lemma update_same: "dict_at s f = Some d \<Longrightarrow> s[f := DictObj d] = s"
  using dict_at_nth[of s f d] by (metis list_update_id)

lemma copy_fields_st_sim:
  assumes "series_at s row = Some r" and "dict_at s f = Some d"
  shows "\<exists>d'. snd (copy_fields_st str2float row f cols s) = s[f := DictObj d']
            \<and> (case copy_fields str2float r cols d of
                  Inl e \<Rightarrow> fst (copy_fields_st str2float row f cols s) = Some e
                | Inr copied \<Rightarrow> fst (copy_fields_st str2float row f cols s) = None
                                \<and> d' = copied)"
  using assms
proof (induction cols arbitrary: s d)
  case Nil
  then show ?case by (auto simp: update_same intro!: exI[of _ d])
next
  case (Cons col cols)
  note sr = Cons.prems(1) and dd = Cons.prems(2)
  have get: "series_get s row col = map_of r col" by (simp add: series_get_def sr)
  have stay: "?case" if "copy_fields_st str2float row f (col # cols) s = copy_fields_st str2float row f cols s"
      "copy_fields str2float r (col # cols) d = copy_fields str2float r cols d"
    using Cons.IH[OF sr dd] unfolding that .
  show ?case
  proof (cases "col \<in> set [''cik'', ''year'']")
    case True
    then show ?thesis by (intro stay) simp_all
  next
    case ns: False
    show ?thesis
    proof (cases "map_of r col")
      case None
      with ns get dd show ?thesis by (auto simp: update_same intro!: exI[of _ d])
    next
      case (Some v)
      show ?thesis
      proof (cases "notna v")
        case False
        with Some ns get show ?thesis by (intro stay) simp_all
      next
        case na: True
        show ?thesis
        proof (cases "py_float str2float v")
          case (Inl e)
          with na Some ns get dd show ?thesis by (auto simp: update_same intro!: exI[of _ d])
        next
          case (Inr x)
          let ?s = "s[f := DictObj (d(col \<mapsto> x))]"
          have f: "f < length s" using dict_at_nth[OF dd] by simp
          have s1: "series_at ?s row = Some r" by (rule series_at_update[OF sr dd])
          have d1: "dict_at ?s f = Some (d(col \<mapsto> x))" by (rule dict_at_update[OF f])
          have e1: "copy_fields_st str2float row f (col # cols) s
                      = copy_fields_st str2float row f cols ?s"
            using na Some ns get Inr dd by (simp add: dict_set_update)
          have e2: "copy_fields str2float r (col # cols) d
                      = copy_fields str2float r cols (d(col \<mapsto> x))"
            using na Some ns Inr by simp
          have over: "?s[f := DictObj d'] = s[f := DictObj d']" for d' by simp
          from Cons.IH[OF s1 d1] show ?thesis unfolding e1 e2 over .
        qed
      qed
    qed
  qed
qed

lemma sum_components_st_update:
  "dict_at s f = Some d \<Longrightarrow> sum_components_st f s = s[f := DictObj (sum_components d)]"
  by (simp add: sum_components_st_def sum_components_def Let_def dict_set_update update_same)

lemma recalc_gross_profit_st_update:
  "dict_at s f = Some d \<Longrightarrow>
   recalc_gross_profit_st f s = s[f := DictObj (recalc_gross_profit d)]"
  by (simp add: recalc_gross_profit_st_def recalc_gross_profit_def dict_set_update update_same
      split: option.splits)

lemma row_to_financials_st_result:
  assumes "series_at s row = Some r"
  shows "\<exists>d. snd (row_to_financials_st str2float row s) = s @ [DictObj d]
           \<and> (case row_to_financials str2float r of
                 Inl e \<Rightarrow> fst (row_to_financials_st str2float row s) = Inl e
               | Inr financials \<Rightarrow>
                   fst (row_to_financials_st str2float row s) = Inr (length s)
                   \<and> d = financials)"
proof -
  let ?s1 = "s @ [DictObj Map.empty]"
  let ?f = "length s"
  have lt: "row < length s" using series_at_nth[OF assms] by simp
  have s1: "series_at ?s1 row = Some r"
    using assms lt by (simp add: series_at_def nth_append)
  have d1: "dict_at ?s1 ?f = Some Map.empty" by (simp add: dict_at_def)
  have upd: "?s1[?f := DictObj d] = s @ [DictObj d]" for d by simp
  from copy_fields_st_sim[OF s1 d1, of str2float "map fst r"] obtain d' where
    snd: "snd (copy_fields_st str2float row ?f (map fst r) ?s1) = s @ [DictObj d']" and
    rel: "case copy_fields str2float r (map fst r) Map.empty of
            Inl e \<Rightarrow> fst (copy_fields_st str2float row ?f (map fst r) ?s1) = Some e
          | Inr copied \<Rightarrow> fst (copy_fields_st str2float row ?f (map fst r) ?s1) = None
                          \<and> d' = copied"
    unfolding upd by blast
  obtain res s2 where out: "copy_fields_st str2float row ?f (map fst r) ?s1 = (res, s2)"
    by (cases "copy_fields_st str2float row ?f (map fst r) ?s1")
  with snd have s2: "s2 = s @ [DictObj d']" by simp
  show ?thesis
  proof (cases "copy_fields str2float r (map fst r) Map.empty")
    case (Inl e)
    with rel out have "res = Some e" by simp
    with Inl out s2 assms show ?thesis
      by (simp add: row_to_financials_st_def row_to_financials_def new_dict_def)
  next
    case (Inr copied)
    with rel out have res: "res = None" and d': "d' = copied" by simp_all
    have a: "dict_at s2 ?f = Some copied" by (simp add: s2 d' dict_at_def)
    have b: "dict_at (s2[?f := DictObj (sum_components copied)]) ?f = Some (sum_components copied)"
      by (simp add: s2 dict_at_def)
    have "recalc_gross_profit_st ?f (sum_components_st ?f s2)
            = s @ [DictObj (recalc_gross_profit (sum_components copied))]"
      by (simp add: sum_components_st_update[OF a] recalc_gross_profit_st_update[OF b]) (simp add: s2)
    with Inr out res assms show ?thesis
      by (simp add: row_to_financials_st_def row_to_financials_def new_dict_def)
  qed
qed

text \<open>
  Claim C6. A call on the row at address \<open>row\<close> leaves every object of the store as
  it was, the row among them: the store after the call is the store before it with
  one object appended. The address returned is that of the appended object, which no
  object had before the call, and the dict there is the one \<open>row_to_financials\<close>
  computes; a call that raises has written to the appended dict only.
\<close>

theorem C6_row_untouched:
  assumes "series_at s row = Some r"
  shows "series_at (snd (row_to_financials_st str2float row s)) row = Some r
         \<and> take (length s) (snd (row_to_financials_st str2float row s)) = s
         \<and> (case fst (row_to_financials_st str2float row s) of
               Inl e \<Rightarrow> True
             | Inr financials \<Rightarrow> financials = length s)
         \<and> returned_dict (row_to_financials_st str2float row s)
             = row_to_financials str2float r"
proof -
  from row_to_financials_st_result[OF assms, of str2float] obtain d where
    snd: "snd (row_to_financials_st str2float row s) = s @ [DictObj d]" and
    rel: "case row_to_financials str2float r of
            Inl e \<Rightarrow> fst (row_to_financials_st str2float row s) = Inl e
          | Inr financials \<Rightarrow>
              fst (row_to_financials_st str2float row s) = Inr (length s) \<and> d = financials"
    by blast
  have lt: "row < length s" using series_at_nth[OF assms] by simp
  have "series_at (s @ [DictObj d]) row = Some r"
    using assms lt by (simp add: series_at_def nth_append)
  moreover have "dict_at (s @ [DictObj d]) (length s) = Some d" by (simp add: dict_at_def)
  ultimately show ?thesis using rel
    by (cases "row_to_financials str2float r") (simp_all add: snd returned_dict_def)
qed

theorem C6_row_untouched_witness:
  "series_at [SeriesObj apple_row] 0 = Some apple_row
   \<and> series_at (snd (row_to_financials_st decimal_float 0 [SeriesObj apple_row])) 0
       = Some apple_row
   \<and> take 1 (snd (row_to_financials_st decimal_float 0 [SeriesObj apple_row]))
       = [SeriesObj apple_row]
   \<and> result_field (returned_dict (row_to_financials_st decimal_float 0 [SeriesObj apple_row]))
       ''revenue'' = Inr (Some (Finite 383285000000))"
proof -
  have h: "series_at [SeriesObj apple_row] 0 = Some apple_row" by (simp add: series_at_def)
  have r: "result_field (row_to_financials decimal_float apple_row) ''revenue''
             = Inr (Some (Finite 383285000000))"
    by (simp add: result_field_def row_to_financials_def apple_row_def sum_components_def
      recalc_gross_profit_def dict_get_def round_eval)
  from C6_row_untouched[OF h, of decimal_float] h r show ?thesis by simp
qed



end
